theory Spec2Isabelle
  imports Complex_Main "HOL-Library.Sublist"
begin

section \<open>Snapshots and change detection (realtime\_sync.py)\<close>

text \<open>
  A snapshot is the Python dict built by \<open>FileWatcher.get_file_times\<close>: path string to
  \<open>st_mtime\<close>. A Python dict keeps insertion order and \<open>items()\<close> walks it in that
  order, and the change list is built in that order, so a dict is an association list;
  a dict never holds a key twice, which is the predicate \<open>is_dict\<close>. The timestamp is a
  Python float read from \<open>stat()\<close>; it is a finite number there, compared with \<open>!=\<close>,
  and is modelled as a real.
\<close>

type_synonym timestamp = real

type_synonym snapshot = "(string \<times> timestamp) list"

definition is_dict :: "('k \<times> 'v) list \<Rightarrow> bool" where
  "is_dict d = distinct (map fst d)"

definition keys :: "('k \<times> 'v) list \<Rightarrow> 'k set" where
  "keys d = fst ` set d"

text \<open>\<open>d[k] = v\<close>: an existing key keeps its place and takes the new value, a new key
  goes to the end.\<close>

fun dict_set :: "('k \<times> 'v) list \<Rightarrow> 'k \<Rightarrow> 'v \<Rightarrow> ('k \<times> 'v) list" where
  "dict_set [] k v = [(k, v)]"
| "dict_set ((k', v') # d) k v = (if k' = k then (k, v) # d else (k', v') # dict_set d k v)"

text \<open>
  The two loops of \<open>FileWatcher.watch\<close> that fill \<open>changed_files\<close>:
  \<^verbatim>\<open>
  for file_path, mod_time in current_times.items():
      if (file_path not in self.last_modified or
          self.last_modified[file_path] != mod_time):
          changed_files.append(file_path)
  for file_path in self.last_modified:
      if file_path not in current_times:
          changed_files.append(f"{file_path} (deleted)")
  \<close>
\<close>

fun check_for_changes :: "snapshot \<Rightarrow> (string \<times> timestamp) list \<Rightarrow> string list \<Rightarrow> string list" where
  "check_for_changes last_modified [] changed_files = changed_files"
| "check_for_changes last_modified ((file_path, mod_time) # items) changed_files =
     (if (case map_of last_modified file_path of
            None \<Rightarrow> True
          | Some t \<Rightarrow> t \<noteq> mod_time)
      then check_for_changes last_modified items (changed_files @ [file_path])
      else check_for_changes last_modified items changed_files)"

fun check_for_deleted :: "snapshot \<Rightarrow> string list \<Rightarrow> string list \<Rightarrow> string list" where
  "check_for_deleted current_times [] changed_files = changed_files"
| "check_for_deleted current_times (file_path # rest) changed_files =
     (if map_of current_times file_path = None
      then check_for_deleted current_times rest (changed_files @ [file_path @ '' (deleted)''])
      else check_for_deleted current_times rest changed_files)"

definition detect_changes :: "snapshot \<Rightarrow> snapshot \<Rightarrow> string list" where
  "detect_changes last_modified current_times =
     check_for_deleted current_times (map fst last_modified)
       (check_for_changes last_modified current_times [])"

text \<open>The spec's wording of the two classes, for comparison with the loops.\<close>

definition changed_path :: "snapshot \<Rightarrow> snapshot \<Rightarrow> string \<Rightarrow> bool" where
  "changed_path previous current p =
     (p \<notin> keys previous \<or> map_of previous p \<noteq> map_of current p)"

definition deleted_path :: "snapshot \<Rightarrow> snapshot \<Rightarrow> string \<Rightarrow> bool" where
  "deleted_path previous current p = (p \<in> keys previous \<and> p \<notin> keys current)"

definition deleted_tag :: "string \<Rightarrow> string" where
  "deleted_tag p = p @ '' (deleted)''"

section \<open>Scanning the watched directory (realtime\_sync.py)\<close>

text \<open>
  The filesystem is what \<open>self.watch_directory.rglob('*')\<close> yields, in its order: for
  each entry the string of the path, the answer of \<open>is_file()\<close>, and what \<open>stat()\<close>
  does (it raises \<open>OSError\<close>, of which \<open>PermissionError\<close> is a subclass, or gives
  \<open>st_mtime\<close>). A Python str is a list of characters; \<open>pattern in path_str\<close> is the
  contiguous-sublist test.
\<close>

datatype stat_result = OSError | Stat timestamp

record dir_entry =
  path :: string
  is_file :: bool
  stat :: stat_result

type_synonym filesystem = "dir_entry list"

definition ignore_patterns :: "string list" where
  "ignore_patterns =
     [''.git'', ''__pycache__'', ''node_modules'', ''.env'',
      ''trading_dashboard.db'', ''.kiro'', ''.vscode'']"

definition should_ignore :: "string \<Rightarrow> bool" where
  "should_ignore path_str = list_ex (\<lambda>pattern. sublist pattern path_str) ignore_patterns"

fun scan_entries :: "dir_entry list \<Rightarrow> snapshot \<Rightarrow> snapshot" where
  "scan_entries [] file_times = file_times"
| "scan_entries (e # es) file_times =
     (if is_file e \<and> \<not> should_ignore (path e)
      then (case stat e of
              Stat mtime \<Rightarrow> scan_entries es (dict_set file_times (path e) mtime)
            | OSError \<Rightarrow> scan_entries es file_times)
      else scan_entries es file_times)"

definition get_file_times :: "filesystem \<Rightarrow> snapshot" where
  "get_file_times fs = scan_entries fs []"

section \<open>External commands and the console\<close>

text \<open>
  \<open>subprocess.run(command, shell=True, capture_output=True, text=True)\<close> either raises
  an \<open>Exception\<close> \<open>e\<close> (kept as \<open>str(e)\<close>) or returns a result with \<open>returncode\<close>,
  \<open>stdout\<close> and \<open>stderr\<close>. The version-control system is outside the program: a shell
  says what each command line does. One publish sequence runs each command line at most
  once, so a function of the command line describes any behaviour of the collaborator
  during it. The state the program acts on is the list of command lines it has run and
  the lines it has printed.
\<close>

datatype proc_outcome = Raised string | Completed int string string

type_synonym shell = "string \<Rightarrow> proc_outcome"

text \<open>
  The printed lines, one constructor per \<open>print\<close> of the three scripts (the text of
  each, without its leading pictogram, is the constructor's name; arguments are the
  interpolated values).
\<close>

datatype message =
    NoChangesDetected
  | ChangesDetectedCommitting
  | FailedToAddChanges string
  | FailedToAdd string
  | FailedToCommit string
  | PushingToGitHub
  | FailedToPush string
  | SuccessfullySynced
  | FilesChanged nat
  | ChangedFile string
  | AndMoreFiles nat
  | NoChangesToCommit
  | QuickSyncToGitHub
  | Rule nat
  | NoChangesToSync
  | ChangesFound
  | StatusOutput string
  | AddingChanges
  | Committing
  | ViewAt
  | RealTimeSyncStarted
  | Watching
  | Repository
  | CheckInterval int
  | PressCtrlCToStop
  | Monitoring nat
  | RealTimeSyncStopped

fun is_error_report :: "message \<Rightarrow> bool" where
  "is_error_report (FailedToAddChanges e) = True"
| "is_error_report (FailedToAdd e) = True"
| "is_error_report (FailedToCommit e) = True"
| "is_error_report (FailedToPush e) = True"
| "is_error_report m = False"

record io =
  invoked :: "string list"
  printed :: "message list"

definition print_msg :: "message \<Rightarrow> io \<Rightarrow> io" where
  "print_msg m s = s\<lparr>printed := printed s @ [m]\<rparr>"

text \<open>
  The body shared by \<open>run_command\<close> (auto\_sync.py, sync\_now.py) and
  \<open>FileWatcher.run_git_command\<close>:
  \<^verbatim>\<open>
  try:
      result = subprocess.run(command, shell=True, capture_output=True, text=True)
      return result.returncode == 0, result.stdout, result.stderr
  except Exception as e:
      return False, "", str(e)
  \<close>
\<close>

definition result_of :: "proc_outcome \<Rightarrow> bool \<times> string \<times> string" where
  "result_of outcome =
     (case outcome of
        Completed returncode out err \<Rightarrow> (returncode = 0, out, err)
      | Raised e \<Rightarrow> (False, [], e))"

definition run_command :: "shell \<Rightarrow> string \<Rightarrow> io \<Rightarrow> (bool \<times> string \<times> string) \<times> io" where
  "run_command sh command s =
     (result_of (sh command), s\<lparr>invoked := invoked s @ [command]\<rparr>)"

definition run_git_command :: "shell \<Rightarrow> string \<Rightarrow> io \<Rightarrow> (bool \<times> string \<times> string) \<times> io" where
  "run_git_command sh command s =
     (result_of (sh command), s\<lparr>invoked := invoked s @ [command]\<rparr>)"

text \<open>What a command line gives its caller: the three components of the triple.\<close>

definition success_of :: "proc_outcome \<Rightarrow> bool" where
  "success_of outcome = fst (result_of outcome)"

definition output_of :: "proc_outcome \<Rightarrow> string" where
  "output_of outcome = fst (snd (result_of outcome))"

definition error_of :: "proc_outcome \<Rightarrow> string" where
  "error_of outcome = snd (snd (result_of outcome))"

text \<open>The command lines of the three scripts.\<close>

definition git_status :: string where
  "git_status = ''git status --porcelain''"

definition git_add :: string where
  "git_add = ''git add .''"

definition git_commit :: "string \<Rightarrow> string" where
  "git_commit commit_message = ''git commit -m '' @ [CHR 0x22] @ commit_message @ [CHR 0x22]"

definition git_push :: string where
  "git_push = ''git push origin main''"

section \<open>Strings: \<open>str(n)\<close> and \<open>strip()\<close>\<close>

definition digit_char :: "nat \<Rightarrow> char" where
  "digit_char d = ''0123456789'' ! d"

fun str_nat :: "nat \<Rightarrow> string" where
  "str_nat n = (if n < 10 then [digit_char n] else str_nat (n div 10) @ [digit_char (n mod 10)])"

declare str_nat.simps [simp del]

text \<open>
  \<open>str.strip()\<close> removes leading and trailing whitespace. Characters are code points
  below 256 here; the whitespace ones among them are 9 to 13, 28 to 32, 133 and 160.
\<close>

definition is_space :: "char \<Rightarrow> bool" where
  "is_space c =
     (let n = (of_char c :: nat)
      in (9 \<le> n \<and> n \<le> 13) \<or> (28 \<le> n \<and> n \<le> 32) \<or> n = 133 \<or> n = 160)"

definition strip :: "string \<Rightarrow> string" where
  "strip s = rev (dropWhile is_space (rev (dropWhile is_space s)))"

section \<open>The publish sequence of realtime\_sync.py\<close>

text \<open>The lines printed at the head of \<open>sync_to_github\<close>: the count, the first five
  entries, and how many more there are.\<close>

definition changed_lines :: "string list \<Rightarrow> message list" where
  "changed_lines changed_files =
     [FilesChanged (length changed_files)]
     @ map ChangedFile (take 5 changed_files)
     @ (if length changed_files > 5 then [AndMoreFiles (length changed_files - 5)] else [])"

definition print_changed :: "string list \<Rightarrow> io \<Rightarrow> io" where
  "print_changed changed_files s = s\<lparr>printed := printed s @ changed_lines changed_files\<rparr>"

definition realtime_commit_message :: "string list \<Rightarrow> string \<Rightarrow> string" where
  "realtime_commit_message changed_files timestamp =
     ''Real-time sync: '' @ (str_nat (length changed_files) @ '' files'')
       @ '' updated - '' @ timestamp"

text \<open>\<open>timestamp\<close> is \<open>datetime.now().strftime("%Y-%m-%d %H:%M:%S")\<close>, read from the
  clock after staging.\<close>

definition sync_to_github :: "shell \<Rightarrow> string \<Rightarrow> string list \<Rightarrow> io \<Rightarrow> bool \<times> io" where
  "sync_to_github sh timestamp changed_files s0 =
     (let s1 = print_changed changed_files s0 in
      case run_git_command sh git_add s1 of ((success, output, error), s2) \<Rightarrow>
        if \<not> success then (False, print_msg (FailedToAdd error) s2)
        else
          let commit_message = realtime_commit_message changed_files timestamp in
          case run_git_command sh (git_commit commit_message) s2 of ((success, output, error), s3) \<Rightarrow>
            if \<not> success then
              (if sublist ''nothing to commit'' error
               then (True, print_msg NoChangesToCommit s3)
               else (False, print_msg (FailedToCommit error) s3))
            else
              let s4 = print_msg PushingToGitHub s3 in
              case run_git_command sh git_push s4 of ((success, output, error), s5) \<Rightarrow>
                if \<not> success then (False, print_msg (FailedToPush error) s5)
                else (True, print_msg SuccessfullySynced s5))"

section \<open>The watch loop of realtime\_sync.py\<close>

text \<open>
  One round of \<open>while True\<close> in \<open>FileWatcher.watch\<close>; what the outside world is during
  the round (the collaborator, the clock, the directory tree) is a \<open>tick\<close>. The value
  \<open>sync_to_github\<close> returns is dropped, as in the source. The loop only ends by
  \<open>KeyboardInterrupt\<close>; \<open>watch_loop\<close> runs the rounds completed before it.
\<close>

record tick =
  tick_shell :: shell
  tick_now :: string
  tick_fs :: filesystem

definition watch_iteration :: "tick \<Rightarrow> snapshot \<times> io \<Rightarrow> snapshot \<times> io" where
  "watch_iteration t st =
     (case st of (last_modified, s) \<Rightarrow>
        let current_times = get_file_times (tick_fs t);
            changed_files = detect_changes last_modified current_times
        in if changed_files \<noteq> []
           then (case sync_to_github (tick_shell t) (tick_now t) changed_files s of
                   (synced, s') \<Rightarrow> (current_times, s'))
           else (last_modified, s))"

fun watch_loop :: "tick list \<Rightarrow> snapshot \<times> io \<Rightarrow> snapshot \<times> io" where
  "watch_loop [] st = st"
| "watch_loop (t # ts) st = watch_loop ts (watch_iteration t st)"

definition watch :: "int \<Rightarrow> filesystem \<Rightarrow> tick list \<Rightarrow> io \<Rightarrow> snapshot \<times> io" where
  "watch check_interval fs0 ticks s0 =
     (let s1 = s0\<lparr>printed := printed s0
                  @ [RealTimeSyncStarted, Rule 40, Watching, Repository,
                     CheckInterval check_interval, PressCtrlCToStop]\<rparr>;
          last_modified = get_file_times fs0;
          s2 = print_msg (Monitoring (length last_modified)) s1
      in case watch_loop ticks (last_modified, s2) of
           (last_modified', s3) \<Rightarrow> (last_modified', print_msg RealTimeSyncStopped s3))"

section \<open>The publish sequence of auto\_sync.py\<close>

definition check_git_changes :: "shell \<Rightarrow> io \<Rightarrow> bool \<times> io" where
  "check_git_changes sh s =
     (case run_command sh git_status s of ((success, output, error), s') \<Rightarrow>
        (success \<and> strip output \<noteq> [], s'))"

definition auto_commit_message :: "string \<Rightarrow> string" where
  "auto_commit_message timestamp = ''Auto-sync: Update trading dashboard - '' @ timestamp"

definition auto_commit_and_push :: "shell \<Rightarrow> string \<Rightarrow> io \<Rightarrow> bool \<times> io" where
  "auto_commit_and_push sh timestamp s0 =
     (case check_git_changes sh s0 of (has_changes, s1) \<Rightarrow>
        if \<not> has_changes then (True, print_msg NoChangesDetected s1)
        else
          let s2 = print_msg ChangesDetectedCommitting s1 in
          case run_command sh git_add s2 of ((success, output, error), s3) \<Rightarrow>
            if \<not> success then (False, print_msg (FailedToAddChanges error) s3)
            else
              let commit_message = auto_commit_message timestamp in
              case run_command sh (git_commit commit_message) s3 of ((success, output, error), s4) \<Rightarrow>
                if \<not> success then (False, print_msg (FailedToCommit error) s4)
                else
                  let s5 = print_msg PushingToGitHub s4 in
                  case run_command sh git_push s5 of ((success, output, error), s6) \<Rightarrow>
                    if \<not> success then (False, print_msg (FailedToPush error) s6)
                    else (True, print_msg SuccessfullySynced s6))"

section \<open>The one-shot publish of sync\_now.py\<close>

text \<open>\<open>quick_sync\<close> returns \<open>None\<close> on every path: its result is the state alone.\<close>

definition quick_commit_message :: "string \<Rightarrow> string" where
  "quick_commit_message timestamp = ''Quick sync: Trading dashboard updates - '' @ timestamp"

definition quick_sync :: "shell \<Rightarrow> string \<Rightarrow> io \<Rightarrow> io" where
  "quick_sync sh timestamp s0 =
     (let s1 = print_msg (Rule 30) (print_msg QuickSyncToGitHub s0) in
      case run_command sh git_status s1 of ((success, output, error), s2) \<Rightarrow>
        if \<not> success \<or> strip output = [] then print_msg NoChangesToSync s2
        else
          let s3 = print_msg AddingChanges (print_msg (StatusOutput output) (print_msg ChangesFound s2)) in
          case run_command sh git_add s3 of ((success, output, error), s4) \<Rightarrow>
            if \<not> success then print_msg (FailedToAdd error) s4
            else
              let commit_message = quick_commit_message timestamp;
                  s5 = print_msg Committing s4 in
              case run_command sh (git_commit commit_message) s5 of ((success, output, error), s6) \<Rightarrow>
                if \<not> success then print_msg (FailedToCommit error) s6
                else
                  let s7 = print_msg PushingToGitHub s6 in
                  case run_command sh git_push s7 of ((success, output, error), s8) \<Rightarrow>
                    if \<not> success then print_msg (FailedToPush error) s8
                    else print_msg ViewAt (print_msg SuccessfullySynced s8))"

section \<open>Notions used to state the properties\<close>

text \<open>The state after a run that has invoked \<open>cmds\<close> and printed \<open>msgs\<close>, in that order.\<close>

definition after :: "io \<Rightarrow> string list \<Rightarrow> message list \<Rightarrow> io" where
  "after s cmds msgs = s\<lparr>invoked := invoked s @ cmds, printed := printed s @ msgs\<rparr>"

text \<open>What the status pre-check of auto\_sync.py and sync\_now.py tests: the command
  succeeded and its output is not blank.\<close>

definition status_has_changes :: "shell \<Rightarrow> bool" where
  "status_has_changes sh =
     (success_of (sh git_status) \<and> strip (output_of (sh git_status)) \<noteq> [])"

text \<open>Collaborators for concrete runs. \<open>clean_shell\<close>: every command succeeds and prints
  nothing (a clean working tree). \<open>failing_shell c\<close>: the status lists one modified
  file, the command line \<open>c\<close> exits with code 1, every other one succeeds.
  \<open>race_shell\<close>: the status lists one modified file, staging succeeds, and the commit
  exits with code 1 and the text \<open>nothing to commit\<close> on its standard error.
  \<open>broken_shell\<close>: no command can be started.\<close>

definition clean_shell :: shell where
  "clean_shell command = Completed 0 [] []"

definition failing_shell :: "string \<Rightarrow> shell" where
  "failing_shell c command =
     (if command = c then Completed 1 [] ''fatal: failed''
      else if command = git_status then Completed 0 '' M a.txt'' []
      else Completed 0 [] [])"

definition race_shell :: shell where
  "race_shell command =
     (if command = git_status then Completed 0 '' M a.txt'' []
      else if command = git_add then Completed 0 [] []
      else Completed 1 [] ''nothing to commit, working tree clean'')"

text \<open>\<open>stdout_shell\<close>: the status lists one modified file, staging succeeds, and the
  commit exits with code 1, its report of the empty commit on standard output and nothing
  on standard error.\<close>

definition stdout_shell :: shell where
  "stdout_shell command =
     (if command = git_status then Completed 0 '' M a.txt'' []
      else if command = git_add then Completed 0 [] []
      else Completed 1
             (''On branch main'' @ [CHR 0x0A]
              @ ''nothing to commit, working tree clean'' @ [CHR 0x0A]) [])"

definition broken_shell :: shell where
  "broken_shell command = Raised ''[Errno 12] Cannot allocate memory''"

definition empty_io :: io where
  "empty_io = \<lparr>invoked = [], printed = []\<rparr>"

definition blank_shell :: shell where
  "blank_shell command = Completed 0 [CHR 0x0A] []"

text \<open>Directory trees and rounds for concrete runs of the watch loop: the tree with
  \<open>a.txt\<close> alone, the tree after \<open>b.txt\<close> has appeared, a round on the second tree in
  which the push fails, and a later round on it with a clean collaborator.\<close>

definition fs_a :: filesystem where
  "fs_a = [\<lparr>path = ''a.txt'', is_file = True, stat = Stat 1\<rparr>]"

definition fs_ab :: filesystem where
  "fs_ab = [\<lparr>path = ''a.txt'', is_file = True, stat = Stat 1\<rparr>,
            \<lparr>path = ''b.txt'', is_file = True, stat = Stat 2\<rparr>]"

definition fs_git :: filesystem where
  "fs_git = [\<lparr>path = ''./.git/config'', is_file = True, stat = Stat 7\<rparr>,
             \<lparr>path = ''./a.txt'', is_file = True, stat = Stat 1\<rparr>]"

definition tick_push_fails :: tick where
  "tick_push_fails =
     \<lparr>tick_shell = failing_shell git_push, tick_now = ''2024-01-01 00:00:00'', tick_fs = fs_ab\<rparr>"

definition tick_quiet :: tick where
  "tick_quiet =
     \<lparr>tick_shell = clean_shell, tick_now = ''2024-01-01 00:00:05'', tick_fs = fs_ab\<rparr>"

section \<open>Lemmas on dicts\<close>

lemma keys_dict_set: "keys (dict_set d k v) = insert k (keys d)"
  by (induction d k v rule: dict_set.induct) (auto simp: keys_def)

lemma map_fst_dict_set:
  "map fst (dict_set d k v) = (if k \<in> keys d then map fst d else map fst d @ [k])"
  by (induction d k v rule: dict_set.induct) (auto simp: keys_def)

lemma is_dict_dict_set: "is_dict d \<Longrightarrow> is_dict (dict_set d k v)"
  by (simp add: is_dict_def map_fst_dict_set keys_def)

lemma map_of_None_keys: "map_of d k = None \<longleftrightarrow> k \<notin> keys d"
  by (simp add: keys_def map_of_eq_None_iff)

lemma is_dict_map_of: "is_dict d \<Longrightarrow> (k, v) \<in> set d \<Longrightarrow> map_of d k = Some v"
  by (simp add: is_dict_def)

section \<open>Lemmas on change detection\<close>

lemma check_for_changes_filter:
  "check_for_changes lm items acc =
     acc @ map fst (filter (\<lambda>(p, t). map_of lm p \<noteq> Some t) items)"
proof (induction items arbitrary: acc)
  case Nil
  show ?case by simp
next
  case (Cons it items)
  obtain p t where it: "it = (p, t)" by (cases it)
  show ?case
    by (cases "map_of lm p") (simp_all add: it Cons.IH)
qed

lemma check_for_deleted_filter:
  "check_for_deleted cur ps acc =
     acc @ map deleted_tag (filter (\<lambda>p. map_of cur p = None) ps)"
  by (induction ps arbitrary: acc) (simp_all add: deleted_tag_def)

lemma detect_changes_append:
  "detect_changes prev cur =
     map fst (filter (\<lambda>(p, t). map_of prev p \<noteq> Some t) cur)
     @ map deleted_tag (filter (\<lambda>p. map_of cur p = None) (map fst prev))"
  by (simp add: detect_changes_def check_for_changes_filter check_for_deleted_filter)

lemma changed_items_filter:
  assumes "is_dict cur"
  shows "map fst (filter (\<lambda>(p, t). map_of prev p \<noteq> Some t) cur)
           = filter (changed_path prev cur) (map fst cur)"
proof -
  have "\<And>p t. (p, t) \<in> set cur \<Longrightarrow>
          (map_of prev p \<noteq> Some t) = changed_path prev cur p"
    using is_dict_map_of [OF assms]
    by (auto simp: changed_path_def map_of_None_keys [symmetric])
  then have "filter (\<lambda>(p, t). map_of prev p \<noteq> Some t) cur
               = filter (\<lambda>(p, t). changed_path prev cur p) cur"
    by (intro filter_cong) auto
  then show ?thesis
    by (simp add: filter_map comp_def case_prod_unfold)
qed

lemma deleted_items_filter:
  "filter (\<lambda>p. map_of cur p = None) (map fst prev)
     = filter (deleted_path prev cur) (map fst prev)"
  by (intro filter_cong) (auto simp: deleted_path_def map_of_None_keys keys_def)

lemma detect_changes_Nil_iff:
  assumes "is_dict cur"
  shows "detect_changes prev cur = [] \<longleftrightarrow>
           keys prev = keys cur \<and> (\<forall>p \<in> keys cur. map_of prev p = map_of cur p)"
proof
  assume e: "detect_changes prev cur = []"
  then have c: "\<And>p t. (p, t) \<in> set cur \<Longrightarrow> map_of prev p = Some t"
    and d: "\<And>p. p \<in> keys prev \<Longrightarrow> map_of cur p \<noteq> None"
    by (auto simp: detect_changes_append filter_empty_conv keys_def)
  have "keys cur \<subseteq> keys prev"
    using c by (force simp: keys_def dest: map_of_SomeD)
  moreover have "keys prev \<subseteq> keys cur"
    using d by (auto simp: map_of_None_keys)
  moreover have "\<forall>p \<in> keys cur. map_of prev p = map_of cur p"
    using c is_dict_map_of [OF assms] by (auto simp: keys_def)
  ultimately show "keys prev = keys cur \<and> (\<forall>p \<in> keys cur. map_of prev p = map_of cur p)"
    by blast
next
  assume r: "keys prev = keys cur \<and> (\<forall>p \<in> keys cur. map_of prev p = map_of cur p)"
  have "\<And>p t. (p, t) \<in> set cur \<Longrightarrow> map_of prev p = Some t"
    using r is_dict_map_of [OF assms] by (force simp: keys_def)
  moreover have "\<And>p. p \<in> keys prev \<Longrightarrow> map_of cur p \<noteq> None"
    using r by (simp add: map_of_None_keys)
  ultimately show "detect_changes prev cur = []"
    by (auto simp: detect_changes_append filter_empty_conv keys_def)
qed

section \<open>Lemmas on the scan\<close>

lemma is_dict_scan_entries: "is_dict ft \<Longrightarrow> is_dict (scan_entries es ft)"
  by (induction es ft rule: scan_entries.induct)
     (auto simp: is_dict_dict_set split: stat_result.splits)

lemma is_dict_get_file_times: "is_dict (get_file_times fs)"
  unfolding get_file_times_def
  by (rule is_dict_scan_entries) (simp add: is_dict_def)

lemma keys_scan_entries:
  "keys (scan_entries es ft) \<subseteq> keys ft \<union> {p. \<not> should_ignore p}"
  by (induction es ft rule: scan_entries.induct)
     (auto simp: keys_dict_set split: stat_result.splits)

lemma keys_get_file_times: "p \<in> keys (get_file_times fs) \<Longrightarrow> \<not> should_ignore p"
  using keys_scan_entries [of fs "[]"] by (auto simp: get_file_times_def keys_def)

lemma should_ignore_iff:
  "should_ignore p \<longleftrightarrow> (\<exists>pattern \<in> set ignore_patterns. \<exists>pre suf. p = pre @ pattern @ suf)"
  by (simp add: should_ignore_def list_ex_iff sublist_def)

lemma should_ignore_a: "\<not> should_ignore ''a.txt''"
  by (simp add: should_ignore_def ignore_patterns_def sublist_Cons_right)

lemma should_ignore_b: "\<not> should_ignore ''b.txt''"
  by (simp add: should_ignore_def ignore_patterns_def sublist_Cons_right)

lemma get_file_times_fs_a: "get_file_times fs_a = [(''a.txt'', 1)]"
  by (simp add: get_file_times_def fs_a_def should_ignore_a)

lemma get_file_times_fs_ab: "get_file_times fs_ab = [(''a.txt'', 1), (''b.txt'', 2)]"
  by (simp add: get_file_times_def fs_ab_def should_ignore_a should_ignore_b)

section \<open>Lemmas on the commands and the publish sequences\<close>

lemma completed_simps:
  "success_of (Completed rc out err) = (rc = 0)"
  "output_of (Completed rc out err) = out"
  "error_of (Completed rc out err) = err"
  "success_of (Raised e) = False"
  "output_of (Raised e) = []"
  "error_of (Raised e) = e"
  by (simp_all add: success_of_def output_of_def error_of_def result_of_def)

lemma command_lines_distinct:
  "git_add \<noteq> git_status" "git_push \<noteq> git_status" "git_commit m \<noteq> git_status"
  "git_add \<noteq> git_push" "git_commit m \<noteq> git_add" "git_commit m \<noteq> git_push"
  "git_status \<noteq> git_add" "git_status \<noteq> git_push" "git_status \<noteq> git_commit m"
  "git_push \<noteq> git_add" "git_add \<noteq> git_commit m" "git_push \<noteq> git_commit m"
  by (simp_all add: git_add_def git_status_def git_push_def git_commit_def)

lemma run_command_eq:
  "run_command sh c s = ((success_of (sh c), output_of (sh c), error_of (sh c)), after s [c] [])"
  by (simp add: run_command_def success_of_def output_of_def error_of_def after_def)

lemma run_git_command_eq:
  "run_git_command sh c s = ((success_of (sh c), output_of (sh c), error_of (sh c)), after s [c] [])"
  by (simp add: run_git_command_def success_of_def output_of_def error_of_def after_def)

lemma print_msg_eq: "print_msg m s = after s [] [m]"
  by (simp add: print_msg_def after_def)

lemma print_changed_eq: "print_changed cf s = after s [] (changed_lines cf)"
  by (simp add: print_changed_def after_def)

lemma after_after: "after (after s c1 m1) c2 m2 = after s (c1 @ c2) (m1 @ m2)"
  by (simp add: after_def)

lemmas publish_simps =
  run_command_eq run_git_command_eq print_msg_eq print_changed_eq after_after Let_def

text \<open>Each publish sequence as one decision list over what the collaborator answers.\<close>

lemma sync_to_github_eq:
  "sync_to_github sh ts cf s =
     (let add = sh git_add;
          commit = sh (git_commit (realtime_commit_message cf ts));
          push = sh git_push
      in if \<not> success_of add
         then (False, after s [git_add] (changed_lines cf @ [FailedToAdd (error_of add)]))
         else if \<not> success_of commit
         then (if sublist ''nothing to commit'' (error_of commit)
               then (True, after s [git_add, git_commit (realtime_commit_message cf ts)]
                       (changed_lines cf @ [NoChangesToCommit]))
               else (False, after s [git_add, git_commit (realtime_commit_message cf ts)]
                       (changed_lines cf @ [FailedToCommit (error_of commit)])))
         else if \<not> success_of push
         then (False, after s [git_add, git_commit (realtime_commit_message cf ts), git_push]
                 (changed_lines cf @ [PushingToGitHub, FailedToPush (error_of push)]))
         else (True, after s [git_add, git_commit (realtime_commit_message cf ts), git_push]
                 (changed_lines cf @ [PushingToGitHub, SuccessfullySynced])))"
  by (simp add: sync_to_github_def publish_simps)

lemma check_git_changes_eq:
  "check_git_changes sh s = (status_has_changes sh, after s [git_status] [])"
  by (simp add: check_git_changes_def status_has_changes_def publish_simps)

lemma auto_commit_and_push_eq:
  "auto_commit_and_push sh ts s =
     (let add = sh git_add;
          commit = sh (git_commit (auto_commit_message ts));
          push = sh git_push
      in if \<not> status_has_changes sh
         then (True, after s [git_status] [NoChangesDetected])
         else if \<not> success_of add
         then (False, after s [git_status, git_add]
                 [ChangesDetectedCommitting, FailedToAddChanges (error_of add)])
         else if \<not> success_of commit
         then (False, after s [git_status, git_add, git_commit (auto_commit_message ts)]
                 [ChangesDetectedCommitting, FailedToCommit (error_of commit)])
         else if \<not> success_of push
         then (False, after s [git_status, git_add, git_commit (auto_commit_message ts), git_push]
                 [ChangesDetectedCommitting, PushingToGitHub, FailedToPush (error_of push)])
         else (True, after s [git_status, git_add, git_commit (auto_commit_message ts), git_push]
                 [ChangesDetectedCommitting, PushingToGitHub, SuccessfullySynced]))"
  by (simp add: auto_commit_and_push_def check_git_changes_eq publish_simps)

lemma quick_sync_eq:
  "quick_sync sh ts s =
     (let status = sh git_status;
          add = sh git_add;
          commit = sh (git_commit (quick_commit_message ts));
          push = sh git_push;
          found = [QuickSyncToGitHub, Rule 30, ChangesFound, StatusOutput (output_of status),
                   AddingChanges]
      in if \<not> status_has_changes sh
         then after s [git_status] [QuickSyncToGitHub, Rule 30, NoChangesToSync]
         else if \<not> success_of add
         then after s [git_status, git_add] (found @ [FailedToAdd (error_of add)])
         else if \<not> success_of commit
         then after s [git_status, git_add, git_commit (quick_commit_message ts)]
                (found @ [Committing, FailedToCommit (error_of commit)])
         else if \<not> success_of push
         then after s [git_status, git_add, git_commit (quick_commit_message ts), git_push]
                (found @ [Committing, PushingToGitHub, FailedToPush (error_of push)])
         else after s [git_status, git_add, git_commit (quick_commit_message ts), git_push]
                (found @ [Committing, PushingToGitHub, SuccessfullySynced, ViewAt]))"
  by (simp add: quick_sync_def status_has_changes_def publish_simps)

lemma failing_shell_simps:
  "failing_shell c c = Completed 1 [] ''fatal: failed''"
  "c \<noteq> git_status \<Longrightarrow> failing_shell c git_status = Completed 0 '' M a.txt'' []"
  "c \<noteq> d \<Longrightarrow> d \<noteq> git_status \<Longrightarrow> failing_shell c d = Completed 0 [] []"
  by (simp_all add: failing_shell_def)


lemma sync_push_fails:
  "fst (sync_to_github (failing_shell git_push) ''2024-01-01 00:00:00'' [''b.txt''] s) = False"
  by (simp add: sync_to_github_eq failing_shell_simps command_lines_distinct completed_simps)

section \<open>Lemmas on the watch loop\<close>

lemma watch_loop_snoc: "watch_loop (ticks @ [t]) st = watch_iteration t (watch_loop ticks st)"
  by (induction ticks arbitrary: st) simp_all

lemma watch_iteration_eq:
  "watch_iteration t (last_modified, s) =
     (if detect_changes last_modified (get_file_times (tick_fs t)) \<noteq> []
      then (get_file_times (tick_fs t),
            snd (sync_to_github (tick_shell t) (tick_now t)
                   (detect_changes last_modified (get_file_times (tick_fs t))) s))
      else (last_modified, s))"
  by (simp add: watch_iteration_def Let_def split: prod.splits)

section \<open>Change detection: claims C1, C2, C9\<close>

text \<open>
  Claim C1. For every previous snapshot and every current snapshot (a dict: no key
  twice), the change list computed by the detection pass is empty if and only if the two
  snapshots have the same key set and, for every key, the same timestamp.
\<close>

theorem detect_changes_empty_iff:
  assumes "is_dict current"
  shows "detect_changes previous current = [] \<longleftrightarrow>
           keys previous = keys current
           \<and> (\<forall>p \<in> keys current. map_of previous p = map_of current p)"
  using assms by (rule detect_changes_Nil_iff)

theorem detect_changes_empty_iff_witness:
  "is_dict [(''a.txt'', 1 :: real)]
   \<and> detect_changes [(''a.txt'', 1)] [(''a.txt'', 1)] = []
   \<and> detect_changes [(''a.txt'', 1)] [(''a.txt'', 1), (''b.txt'', 2)] \<noteq> []"
proof -
  have d1: "is_dict [(''a.txt'', 1 :: real)]" by (simp add: is_dict_def)
  have d2: "is_dict [(''a.txt'', 1 :: real), (''b.txt'', 2)]" by (simp add: is_dict_def)
  show ?thesis
    using d1 detect_changes_empty_iff [OF d1, of "[(''a.txt'', 1)]"]
      detect_changes_empty_iff [OF d2, of "[(''a.txt'', 1)]"]
    by (simp add: keys_def)
qed

text \<open>
  Claim C2. For every previous snapshot and every current snapshot (a dict), the change
  list is exactly: the paths of the current snapshot, in its order, that are absent from
  the previous one or present in both with a different timestamp (changed), followed by
  the paths of the previous snapshot, in its order, that are absent from the current one,
  each with the suffix \<open> (deleted)\<close>; so every changed entry precedes every deleted one.
\<close>

theorem detect_changes_changed_then_deleted:
  assumes "is_dict current"
  shows "detect_changes previous current =
           filter (changed_path previous current) (map fst current)
           @ map deleted_tag (filter (deleted_path previous current) (map fst previous))"
  by (simp add: detect_changes_append changed_items_filter [OF assms] deleted_items_filter)

theorem detect_changes_changed_then_deleted_witness:
  "is_dict [(''b.txt'', 2 :: real), (''a.txt'', 1), (''d.txt'', 5)]
   \<and> detect_changes [(''a.txt'', 1), (''c.txt'', 3), (''d.txt'', 4)]
        [(''b.txt'', 2), (''a.txt'', 1), (''d.txt'', 5)]
      = [''b.txt'', ''d.txt'', ''c.txt (deleted)'']"
proof -
  have d: "is_dict [(''b.txt'', 2 :: real), (''a.txt'', 1), (''d.txt'', 5)]"
    by (simp add: is_dict_def)
  show ?thesis
    using d detect_changes_changed_then_deleted
              [OF d, of "[(''a.txt'', 1), (''c.txt'', 3), (''d.txt'', 4)]"]
    by (simp add: changed_path_def deleted_path_def deleted_tag_def keys_def)
qed

text \<open>
  Claim C9. For every filesystem state, two scans of that same state give two snapshots
  whose change list is empty. (The scan is a function of the filesystem state, so the two
  snapshots are the same dict.)
\<close>

theorem scan_twice_empty_diff:
  "detect_changes (get_file_times fs) (get_file_times fs) = []"
  by (simp add: detect_changes_Nil_iff [OF is_dict_get_file_times])

theorem scan_twice_empty_diff_witness:
  "get_file_times fs_ab = [(''a.txt'', 1), (''b.txt'', 2)]
   \<and> detect_changes (get_file_times fs_ab) (get_file_times fs_ab) = []"
  using scan_twice_empty_diff [of fs_ab] by (simp add: get_file_times_fs_ab)

section \<open>The ignore set: claim C6\<close>

text \<open>
  Claim C6. For every filesystem state, a path whose string contains a pattern of the
  ignore set as a substring is not a key of the snapshot the scan produces, whatever the
  entry's kind and modification time.
\<close>

theorem ignored_path_not_in_snapshot:
  assumes "pattern \<in> set ignore_patterns" and "p = pre @ pattern @ suf"
  shows "p \<notin> keys (get_file_times fs)"
  using assms keys_get_file_times [of p fs] should_ignore_iff [of p] by blast

theorem ignored_path_not_in_snapshot_witness:
  "''.git'' \<in> set ignore_patterns \<and> ''./.git/config'' = ''./'' @ ''.git'' @ ''/config''
   \<and> ''./.git/config'' \<notin> keys (get_file_times fs_git)"
proof -
  have m: "''.git'' \<in> set ignore_patterns" by (simp add: ignore_patterns_def)
  have e: "''./.git/config'' = ''./'' @ ''.git'' @ ''/config''" by simp
  show ?thesis
    using m e ignored_path_not_in_snapshot [OF m e] by simp
qed

section \<open>The watch loop: claim C4\<close>

text \<open>
  Claim C4. In every round of the watch loop, after any number of earlier rounds: when
  the change list of the round is not empty, a sync is attempted and the snapshot taken
  at the start of the round becomes the baseline of the next round, whatever the sync
  returns; when the change list is empty, nothing is run and the baseline is left as it
  was.
\<close>

theorem baseline_advances_after_any_sync_attempt:
  assumes "watch_loop ticks st = (last_modified, s)"
  shows "(detect_changes last_modified (get_file_times (tick_fs t)) \<noteq> [] \<longrightarrow>
            watch_loop (ticks @ [t]) st =
              (get_file_times (tick_fs t),
               snd (sync_to_github (tick_shell t) (tick_now t)
                      (detect_changes last_modified (get_file_times (tick_fs t))) s)))
         \<and> (detect_changes last_modified (get_file_times (tick_fs t)) = [] \<longrightarrow>
            watch_loop (ticks @ [t]) st = (last_modified, s))"
  by (simp add: watch_loop_snoc assms watch_iteration_eq)

theorem baseline_advances_after_any_sync_attempt_witness:
  "watch_loop [] (get_file_times fs_a, empty_io) = ([(''a.txt'', 1)], empty_io)
   \<and> detect_changes [(''a.txt'', 1)] (get_file_times (tick_fs tick_push_fails)) = [''b.txt'']
   \<and> fst (sync_to_github (tick_shell tick_push_fails) (tick_now tick_push_fails) [''b.txt'']
             empty_io) = False
   \<and> fst (watch_loop [tick_push_fails] (get_file_times fs_a, empty_io))
       = [(''a.txt'', 1), (''b.txt'', 2)]
   \<and> detect_changes [(''a.txt'', 1), (''b.txt'', 2)] (get_file_times (tick_fs tick_quiet)) = []
   \<and> watch_loop [tick_push_fails, tick_quiet] (get_file_times fs_a, empty_io)
       = watch_loop [tick_push_fails] (get_file_times fs_a, empty_io)"
proof -
  have s0: "watch_loop [] (get_file_times fs_a, empty_io) = ([(''a.txt'', 1)], empty_io)"
    by (simp add: get_file_times_fs_a)
  have d1: "detect_changes [(''a.txt'', 1)] (get_file_times (tick_fs tick_push_fails)) = [''b.txt'']"
    by (simp add: tick_push_fails_def get_file_times_fs_ab detect_changes_def)
  have f: "fst (sync_to_github (tick_shell tick_push_fails) (tick_now tick_push_fails) [''b.txt'']
             empty_io) = False"
    by (simp add: tick_push_fails_def sync_push_fails)
  have d2: "detect_changes [(''a.txt'', 1), (''b.txt'', 2)] (get_file_times (tick_fs tick_quiet)) = []"
    by (simp add: tick_quiet_def get_file_times_fs_ab detect_changes_def)
  obtain s1 where s1: "watch_loop [tick_push_fails] (get_file_times fs_a, empty_io)
                        = ([(''a.txt'', 1), (''b.txt'', 2)], s1)"
    using baseline_advances_after_any_sync_attempt [OF s0, of tick_push_fails] d1
    by (simp add: tick_push_fails_def get_file_times_fs_ab)
  have "watch_loop ([tick_push_fails] @ [tick_quiet]) (get_file_times fs_a, empty_io)
          = ([(''a.txt'', 1), (''b.txt'', 2)], s1)"
    using baseline_advances_after_any_sync_attempt [OF s1, of tick_quiet] d2 by simp
  then show ?thesis
    using s0 d1 f d2 s1 by simp
qed

section \<open>The publish sequences: claims C3, C5\<close>

text \<open>
  Claim C3. For every sync attempt in which staging succeeds and the commit step fails
  because there is nothing to commit, the publish returns success and reports no error.
  \<open>sync_to_github\<close> looks for the words in the error text only. At a collaborator whose
  commit exits with code 1 and reports the empty commit on its standard output, with
  staging having succeeded, it runs the staging and the commit, prints the commit failure
  with an empty error text, and returns \<open>False\<close>.
\<close>

theorem sync_to_github_misses_report_on_stdout:
  "success_of (stdout_shell git_add)
   \<and> stdout_shell (git_commit (realtime_commit_message [''a.txt''] ''2024-01-01 00:00:00''))
       = Completed 1
           (''On branch main'' @ [CHR 0x0A]
            @ ''nothing to commit, working tree clean'' @ [CHR 0x0A]) []
   \<and> sublist ''nothing to commit''
        (output_of (stdout_shell
           (git_commit (realtime_commit_message [''a.txt''] ''2024-01-01 00:00:00''))))
   \<and> sync_to_github stdout_shell ''2024-01-01 00:00:00'' [''a.txt''] empty_io =
        (False, \<lparr>invoked = [git_add,
                     git_commit (realtime_commit_message [''a.txt''] ''2024-01-01 00:00:00'')],
                 printed = [FilesChanged 1, ChangedFile ''a.txt'', FailedToCommit []]\<rparr>)"
proof -
  let ?c = "git_commit (realtime_commit_message [''a.txt''] ''2024-01-01 00:00:00'')"
  have c: "stdout_shell ?c = Completed 1
             (''On branch main'' @ [CHR 0x0A]
              @ ''nothing to commit, working tree clean'' @ [CHR 0x0A]) []"
    by (simp add: stdout_shell_def command_lines_distinct)
  have a: "stdout_shell git_add = Completed 0 [] []"
    by (simp add: stdout_shell_def command_lines_distinct)
  have n: "sublist ''nothing to commit'' (output_of (stdout_shell ?c))"
    by (simp add: c completed_simps sublist_Cons_right)
  have l: "changed_lines [''a.txt''] = [FilesChanged 1, ChangedFile ''a.txt'']"
    by (simp add: changed_lines_def)
  have r: "sync_to_github stdout_shell ''2024-01-01 00:00:00'' [''a.txt''] empty_io =
        (False, \<lparr>invoked = [git_add, ?c],
                 printed = [FilesChanged 1, ChangedFile ''a.txt'', FailedToCommit []]\<rparr>)"
    by (simp add: sync_to_github_eq a c completed_simps l after_def empty_io_def)
  show ?thesis
    using a c n r by (simp add: completed_simps)
qed

text \<open>
  The special case exists in realtime\_sync.py only, and there it reads the error text
  alone (\<open>if "nothing to commit" in error\<close>; \<open>output\<close> is never read). With the text on
  the error stream \<open>sync_to_github\<close> returns \<open>True\<close> and prints no failure line;
  \<open>auto_commit_and_push\<close>, which has the status pre-check in its place, reports every
  commit failure.
\<close>

lemma auto_sync_nothing_to_commit_fails:
  "success_of (race_shell git_add)
   \<and> \<not> success_of (race_shell (git_commit (auto_commit_message ''2024-01-01 00:00:00'')))
   \<and> sublist ''nothing to commit''
        (error_of (race_shell (git_commit (auto_commit_message ''2024-01-01 00:00:00''))))
   \<and> fst (auto_commit_and_push race_shell ''2024-01-01 00:00:00'' empty_io) = False
   \<and> printed (snd (auto_commit_and_push race_shell ''2024-01-01 00:00:00'' empty_io)) =
        [ChangesDetectedCommitting, FailedToCommit ''nothing to commit, working tree clean'']"
proof -
  let ?c = "git_commit (auto_commit_message ''2024-01-01 00:00:00'')"
  have c: "race_shell ?c = Completed 1 [] ''nothing to commit, working tree clean''"
    by (simp add: race_shell_def command_lines_distinct)
  have a: "race_shell git_add = Completed 0 [] []"
    by (simp add: race_shell_def command_lines_distinct)
  have st: "race_shell git_status = Completed 0 '' M a.txt'' []"
    by (simp add: race_shell_def)
  have h: "status_has_changes race_shell"
    by (simp add: status_has_changes_def st completed_simps strip_def is_space_def)
  show ?thesis
    by (simp add: auto_commit_and_push_eq h a c completed_simps sublist_Cons_right
          after_def empty_io_def)
qed

lemma nothing_to_commit_on_stderr_is_success:
  assumes "success_of (sh git_add)"
    and "\<not> success_of (sh (git_commit (realtime_commit_message changed_files timestamp)))"
    and "sublist ''nothing to commit''
           (error_of (sh (git_commit (realtime_commit_message changed_files timestamp))))"
  shows "sync_to_github sh timestamp changed_files s =
           (True, after s [git_add, git_commit (realtime_commit_message changed_files timestamp)]
                    (changed_lines changed_files @ [NoChangesToCommit]))
         \<and> \<not> list_ex is_error_report (changed_lines changed_files @ [NoChangesToCommit])"
  using assms by (simp add: sync_to_github_eq changed_lines_def list_ex_iff) auto

lemma nothing_to_commit_on_stderr_is_success_example:
  "success_of (race_shell git_add)
   \<and> \<not> success_of (race_shell (git_commit (realtime_commit_message [''a.txt''] ''2024-01-01 00:00:00'')))
   \<and> sublist ''nothing to commit''
        (error_of (race_shell (git_commit (realtime_commit_message [''a.txt''] ''2024-01-01 00:00:00''))))
   \<and> sync_to_github race_shell ''2024-01-01 00:00:00'' [''a.txt''] empty_io =
        (True, \<lparr>invoked = [''git add .'',
                   ''git commit -m '' @ [CHR 0x22]
                     @ ''Real-time sync: 1 files updated - 2024-01-01 00:00:00'' @ [CHR 0x22]],
                printed = [FilesChanged 1, ChangedFile ''a.txt'', NoChangesToCommit]\<rparr>)"
proof -
  let ?c = "git_commit (realtime_commit_message [''a.txt''] ''2024-01-01 00:00:00'')"
  have c: "race_shell ?c = Completed 1 [] ''nothing to commit, working tree clean''"
    by (simp add: race_shell_def command_lines_distinct)
  have a: "success_of (race_shell git_add)"
    by (simp add: race_shell_def command_lines_distinct completed_simps)
  have f: "\<not> success_of (race_shell ?c)"
    by (simp add: c completed_simps)
  have n: "sublist ''nothing to commit'' (error_of (race_shell ?c))"
    by (simp add: c completed_simps sublist_Cons_right)
  show ?thesis
    using a f n nothing_to_commit_on_stderr_is_success [OF a f n, of empty_io]
    by (simp add: after_def empty_io_def changed_lines_def git_add_def git_commit_def
          realtime_commit_message_def str_nat.simps digit_char_def)
qed



section \<open>The status pre-check: claims C7, C10\<close>

text \<open>
  Claim C7. In auto\_sync.py and sync\_now.py, whenever the pre-check reports no
  uncommitted changes (the status command did not succeed, or its output is blank), the
  sync runs the status command and no other, prints that there are no changes and no
  failure line, and returns normally (\<open>True\<close> in auto\_sync.py).
\<close>

theorem precheck_short_circuit:
  assumes "\<not> success_of (sh git_status) \<or> strip (output_of (sh git_status)) = []"
  shows "auto_commit_and_push sh ts s = (True, after s [git_status] [NoChangesDetected])
         \<and> quick_sync sh ts s = after s [git_status] [QuickSyncToGitHub, Rule 30, NoChangesToSync]"
  using assms by (auto simp: auto_commit_and_push_eq quick_sync_eq status_has_changes_def)

theorem precheck_short_circuit_witness:
  "success_of (blank_shell git_status)
   \<and> strip (output_of (blank_shell git_status)) = []
   \<and> auto_commit_and_push blank_shell ''12:00'' empty_io
       = (True, \<lparr>invoked = [''git status --porcelain''], printed = [NoChangesDetected]\<rparr>)
   \<and> quick_sync blank_shell ''12:00'' empty_io
       = \<lparr>invoked = [''git status --porcelain''],
          printed = [QuickSyncToGitHub, Rule 30, NoChangesToSync]\<rparr>"
proof -
  have h: "\<not> success_of (blank_shell git_status) \<or> strip (output_of (blank_shell git_status)) = []"
    by (simp add: blank_shell_def completed_simps strip_def is_space_def)
  show ?thesis
    using h precheck_short_circuit [of blank_shell "''12:00''" empty_io, OF h]
    by (simp add: after_def empty_io_def git_status_def blank_shell_def completed_simps)
qed

text \<open>
  Claim C10. In auto\_sync.py and sync\_now.py a status command that itself fails is not
  told apart from a clean working tree: the sync runs the status command and no other,
  prints the no-changes line, and behaves exactly as it does with a collaborator whose
  status succeeds with empty output; \<open>auto_commit_and_push\<close> returns \<open>True\<close>.
\<close>

theorem status_failure_looks_like_no_changes:
  assumes "\<not> success_of (sh git_status)"
  shows "auto_commit_and_push sh ts s = (True, after s [git_status] [NoChangesDetected])
         \<and> auto_commit_and_push sh ts s = auto_commit_and_push clean_shell ts s
         \<and> quick_sync sh ts s = after s [git_status] [QuickSyncToGitHub, Rule 30, NoChangesToSync]
         \<and> quick_sync sh ts s = quick_sync clean_shell ts s"
  using assms
  by (simp add: auto_commit_and_push_eq quick_sync_eq status_has_changes_def
        clean_shell_def completed_simps strip_def)

theorem status_failure_looks_like_no_changes_witness:
  "\<not> success_of (broken_shell git_status)
   \<and> auto_commit_and_push broken_shell ''12:00'' empty_io
       = (True, \<lparr>invoked = [''git status --porcelain''], printed = [NoChangesDetected]\<rparr>)
   \<and> auto_commit_and_push broken_shell ''12:00'' empty_io
       = auto_commit_and_push clean_shell ''12:00'' empty_io
   \<and> quick_sync broken_shell ''12:00'' empty_io = quick_sync clean_shell ''12:00'' empty_io"
proof -
  have h: "\<not> success_of (broken_shell git_status)"
    by (simp add: broken_shell_def completed_simps)
  note t = status_failure_looks_like_no_changes [of broken_shell "''12:00''" empty_io, OF h]
  have a: "auto_commit_and_push broken_shell ''12:00'' empty_io
       = (True, \<lparr>invoked = [''git status --porcelain''], printed = [NoChangesDetected]\<rparr>)"
    using t by (simp add: after_def empty_io_def git_status_def)
  have b: "auto_commit_and_push broken_shell ''12:00'' empty_io
       = auto_commit_and_push clean_shell ''12:00'' empty_io"
    using t by blast
  have c: "quick_sync broken_shell ''12:00'' empty_io = quick_sync clean_shell ''12:00'' empty_io"
    using t by blast
  show ?thesis
    using h a b c by blast
qed

section \<open>The command helper: claim C8\<close>

text \<open>
  Claim C8. For every command line, whatever the invocation does, the helper
  (\<open>run_command\<close>, \<open>run_git_command\<close>) returns a triple of success flag, standard output
  and standard error: when the invocation raises an exception with text \<open>e\<close> the triple is
  \<open>(False, "", e)\<close>, when it completes the triple is the exit code being zero with the
  two captured streams. So an exception in a step of the publish sequence is a failed
  step of it: raised while staging, it makes \<open>sync_to_github\<close> print the failure and return
  \<open>False\<close>.
\<close>

theorem run_command_total:
  "(sh command = Raised e \<longrightarrow>
      run_command sh command s = ((False, [], e), after s [command] [])
      \<and> run_git_command sh command s = ((False, [], e), after s [command] []))
   \<and> (sh command = Completed returncode out err \<longrightarrow>
      run_command sh command s = ((returncode = 0, out, err), after s [command] [])
      \<and> run_git_command sh command s = ((returncode = 0, out, err), after s [command] []))
   \<and> (\<exists>success output error.
        run_command sh command s = ((success, output, error), after s [command] [])
        \<and> run_git_command sh command s = ((success, output, error), after s [command] []))
   \<and> (sh git_add = Raised e \<longrightarrow>
      sync_to_github sh ts cf s = (False, after s [git_add] (changed_lines cf @ [FailedToAdd e])))"
  by (simp add: run_command_eq run_git_command_eq completed_simps sync_to_github_eq)

theorem run_command_total_witness:
  "broken_shell git_add = Raised ''[Errno 12] Cannot allocate memory''
   \<and> run_command broken_shell git_add empty_io
       = ((False, [], ''[Errno 12] Cannot allocate memory''),
          \<lparr>invoked = [''git add .''], printed = []\<rparr>)
   \<and> sync_to_github broken_shell ''12:00'' [''a.txt''] empty_io
       = (False, \<lparr>invoked = [''git add .''],
                  printed = [FilesChanged 1, ChangedFile ''a.txt'',
                             FailedToAdd ''[Errno 12] Cannot allocate memory'']\<rparr>)
   \<and> clean_shell git_add = Completed 0 [] []
   \<and> run_git_command clean_shell git_add empty_io
       = ((True, [], []), \<lparr>invoked = [''git add .''], printed = []\<rparr>)"
  using run_command_total [of broken_shell git_add "''[Errno 12] Cannot allocate memory''"
          empty_io 0 "[]" "[]" "''12:00''" "[''a.txt'']"]
    run_command_total [of clean_shell git_add "[]" empty_io 0 "[]" "[]" "''12:00''" "[''a.txt'']"]
  by (simp add: broken_shell_def clean_shell_def after_def empty_io_def git_add_def
        changed_lines_def)

end
